theory Spec2Isabelle
  imports Main
begin

section \<open>The state machine engine of src/tool/StateMachine.hpp\<close>

subsection \<open>State identifiers\<close>

text \<open>
  \<open>STATES_ID\<close> is an enumeration supplied by the concrete machine. The class comment
  prescribes its layout: the real states first, counted from 0, and then the three
  mandatory enumerators \<open>IGNORING_EVENT\<close>, \<open>CANNOT_HAPPEN\<close>, \<open>MAX_STATES\<close>, in this order,
  as in \<^verbatim>\<open>enum StatesID { IDLE = 0, STOPPING, STARTING, SPINNING,
  IGNORING_EVENT, CANNOT_HAPPEN, MAX_STATES }\<close>. The enumeration is a parameter of the
  model: \<open>n\<close> is the number of real states, and a state identifier is its underlying
  number (a value of the enumeration type may also lie above \<open>MAX_STATES\<close>).
\<close>

type_synonym state_id = nat

definition IGNORING_EVENT :: "nat \<Rightarrow> state_id" where
  "IGNORING_EVENT n = n"

definition CANNOT_HAPPEN :: "nat \<Rightarrow> state_id" where
  "CANNOT_HAPPEN n = n + 1"

definition MAX_STATES :: "nat \<Rightarrow> state_id" where
  "MAX_STATES n = n + 2"

subsection \<open>Callbacks\<close>

text \<open>
  \<open>xFuncPtr\<close> and \<open>bFuncPtr\<close> are pointers to member functions of the concrete machine,
  without arguments. A member function works on the fields of the concrete machine
  (the type \<open>'u\<close>), may read the current state through \<open>state()\<close>, and may call
  \<open>transition\<close> again: the model of a callback takes the current state and the fields
  and gives the new fields and the destinations of the calls of \<open>transition\<close> it makes,
  in the order it makes them. A guard gives its boolean result first. A null pointer is
  \<open>None\<close>.

  Callbacks are taken not to call \<open>reset()\<close> and not to write the protected members
  \<open>m_current_state\<close> and \<open>m_states\<close> themselves.
\<close>

type_synonym 'u xFuncPtr = "state_id \<Rightarrow> 'u \<Rightarrow> 'u \<times> state_id list"

type_synonym 'u bFuncPtr = "state_id \<Rightarrow> 'u \<Rightarrow> bool \<times> 'u \<times> state_id list"

record 'u State =
  entering :: "'u xFuncPtr option"
  leaving :: "'u xFuncPtr option"
  onevent :: "'u xFuncPtr option"

record 'u Transition =
  destination :: state_id
  guard :: "'u bFuncPtr option"
  action :: "'u xFuncPtr option"

text \<open>
  The log of the callbacks that were invoked, by the slot they were taken from. It is
  instrumentation (the call counters of a test) and not a member of the class.
\<close>

datatype call =
    CallGuard
  | CallAction
  | CallLeaving state_id
  | CallEntering state_id
  | CallOnEvent state_id

subsection \<open>The engine\<close>

text \<open>
  The members of \<open>StateMachine\<close>, the fields of the derived class (\<open>fsm\<close>) and two logs:
  \<open>calls\<close>, the callbacks invoked, and \<open>requested\<close>, the destinations of the calls of
  \<open>transition\<close> made from callbacks. No branch of the model reads a log.
  \<open>m_states\<close> is a \<open>std::array\<close> of \<open>MAX_STATES\<close> entries; reading it at an index that is
  not below \<open>MAX_STATES\<close> is written out as a fault where the code does it.
\<close>

record 'u StateMachine =
  m_states :: "state_id \<Rightarrow> 'u State"
  m_current_state :: state_id
  m_initial_state :: state_id
  m_next_state :: state_id
  m_nesting_state :: state_id
  m_nesting :: bool
  fsm :: 'u
  calls :: "call list"
  requested :: "state_id list"

text \<open>
  How a call of \<open>transition\<close> ends: it returns, it leaves the process through
  \<open>exit(EXIT_FAILURE)\<close>, or it has undefined behaviour (the null transition record is
  dereferenced, or the array of states is read out of range). Each carries the machine
  as it is at that moment.
\<close>

datatype 'u outcome =
    Returned "'u StateMachine"
  | Exited "'u StateMachine"
  | Fault "'u StateMachine"

text \<open>Reading an outcome: the machine a call returned with, exited with, or faulted with.\<close>

definition returned :: "'u outcome option \<Rightarrow> 'u StateMachine option" where
  "returned r = (case r of Some (Returned e) \<Rightarrow> Some e | _ \<Rightarrow> None)"

definition exited :: "'u outcome option \<Rightarrow> 'u StateMachine option" where
  "exited r = (case r of Some (Exited e) \<Rightarrow> Some e | _ \<Rightarrow> None)"

definition faulted :: "'u outcome option \<Rightarrow> 'u StateMachine option" where
  "faulted r = (case r of Some (Fault e) \<Rightarrow> Some e | _ \<Rightarrow> None)"

text \<open>\<open>reset\<close> and \<open>state\<close>.\<close>

definition reset :: "nat \<Rightarrow> 'u StateMachine \<Rightarrow> 'u StateMachine" where
  "reset n e = e\<lparr>m_current_state := m_initial_state e,
                 m_nesting_state := CANNOT_HAPPEN n,
                 m_nesting := False\<rparr>"

definition state :: "'u StateMachine \<Rightarrow> state_id" where
  "state e = m_current_state e"

text \<open>
  Lines 290 to 300 when \<open>m_nesting\<close> is set, which it is for as long as a callback runs:
  the call of \<open>transition\<close> stores its destination in \<open>m_nesting_state\<close> and returns. Its
  transition record is not stored. The destination is added to the log \<open>requested\<close>.
\<close>

definition request :: "state_id \<Rightarrow> 'u StateMachine \<Rightarrow> 'u StateMachine" where
  "request new_state e =
     e\<lparr>m_nesting_state := new_state, requested := requested e @ [new_state]\<rparr>"

text \<open>Calling through a member function pointer: the call is logged, the fields are
  updated, and the calls of \<open>transition\<close> made by the callback are carried out in order.\<close>

definition invoke :: "call \<Rightarrow> 'u xFuncPtr \<Rightarrow> 'u StateMachine \<Rightarrow> 'u StateMachine" where
  "invoke c f e =
     (case f (m_current_state e) (fsm e) of
        (u, ds) \<Rightarrow> fold request ds (e\<lparr>fsm := u, calls := calls e @ [c]\<rparr>))"

text \<open>The pattern \<^verbatim>\<open>if (p != nullptr) (this->*p)()\<close> of lines 360, 380 and 389.\<close>

definition invoke_opt ::
  "call \<Rightarrow> 'u xFuncPtr option \<Rightarrow> 'u StateMachine \<Rightarrow> 'u StateMachine" where
  "invoke_opt c p e = (case p of None \<Rightarrow> e | Some f \<Rightarrow> invoke c f e)"

definition invoke_guard :: "'u bFuncPtr \<Rightarrow> 'u StateMachine \<Rightarrow> bool \<times> 'u StateMachine" where
  "invoke_guard g e =
     (case g (m_current_state e) (fsm e) of
        (b, u, ds) \<Rightarrow> (b, fold request ds (e\<lparr>fsm := u, calls := calls e @ [CallGuard]\<rparr>)))"

text \<open>
  One run of the body of the \<open>do ... while\<close> loop, lines 304 to 404. \<open>Stop\<close> is a \<open>return\<close>,
  an \<open>exit\<close> or a fault inside the body; \<open>Pass\<close> is reaching the loop condition.
  The references \<open>nst\<close> and \<open>cst\<close> are bound before the callbacks run; \<open>m_states\<close> does not
  change, so they are read here once. In line 360 the test \<open>tr != nullptr\<close> comes after
  line 339 has dereferenced \<open>tr\<close>, so it is reached with a record only.
\<close>

datatype 'u step = Stop "'u outcome" | Pass "'u StateMachine"

definition iteration :: "nat \<Rightarrow> 'u Transition option \<Rightarrow> 'u StateMachine \<Rightarrow> 'u step" where
  "iteration n tr e0 =
     (let e1 = e0\<lparr>m_next_state := m_nesting_state e0\<rparr>;
          e2 = e1\<lparr>m_nesting_state := CANNOT_HAPPEN n\<rparr>
      in if m_next_state e2 = CANNOT_HAPPEN n then Stop (Exited e2)
         else if m_next_state e2 = IGNORING_EVENT n then Stop (Returned e2)
         else if m_next_state e2 \<ge> MAX_STATES n then Stop (Exited e2)
         else
           let current_state = m_current_state e2;
               e3 = e2\<lparr>m_current_state := m_next_state e2\<rparr>
           in if current_state \<ge> MAX_STATES n then Stop (Fault e3)
              else
                let nst = m_states e3 (m_next_state e3);
                    cst = m_states e3 current_state;
                    e4 = e3\<lparr>m_nesting := True\<rparr>
                in case tr of
                     None \<Rightarrow> Stop (Fault e4)
                   | Some t \<Rightarrow>
                       let (guard_res, e5) =
                             (case guard t of
                                None \<Rightarrow> (True, e4)
                              | Some g \<Rightarrow> invoke_guard g e4)
                       in if \<not> guard_res
                          then Stop (Returned (e5\<lparr>m_current_state := current_state,
                                                   m_nesting := False\<rparr>))
                          else
                            let e6 = invoke_opt CallAction (action t) e5
                            in (case onevent cst of
                                  Some h \<Rightarrow>
                                    Stop (Returned (invoke (CallOnEvent current_state) h e6))
                                | None \<Rightarrow>
                                    let e7 =
                                      (if current_state \<noteq> m_next_state e6
                                       then
                                         let e8 = invoke_opt (CallLeaving current_state)
                                                    (leaving cst) e6
                                         in invoke_opt (CallEntering (m_next_state e8))
                                              (entering nst) e8
                                       else e6)
                                    in Pass (e7\<lparr>m_nesting := False\<rparr>)))"

text \<open>
  The \<open>do ... while\<close> loop, lines 302 to 406. Callbacks may request a transition in every
  pass, so the loop need not end: \<open>None\<close> is a call that never returns.
\<close>

partial_function (option) loop ::
  "nat \<Rightarrow> 'u Transition option \<Rightarrow> 'u StateMachine \<Rightarrow> 'u outcome option" where
  "loop n tr e =
     (case iteration n tr e of
        Stop r \<Rightarrow> Some r
      | Pass e' \<Rightarrow>
          if m_nesting_state e' \<noteq> CANNOT_HAPPEN n then loop n tr e'
          else Some (Returned e'))"

text \<open>\<open>transition(new_state, tr)\<close>, lines 277 to 411, compiled without \<open>THREAD_SAFETY\<close>; the
  log lines of \<open>LOGD\<close> and \<open>LOGE\<close> are left out. The early return of line 299 is the
  deferral \<open>request\<close> that callbacks perform.\<close>

definition transition ::
  "nat \<Rightarrow> state_id \<Rightarrow> 'u Transition option \<Rightarrow> 'u StateMachine \<Rightarrow> 'u outcome option" where
  "transition n new_state tr e =
     (let e' = e\<lparr>m_nesting_state := new_state\<rparr>
      in if m_nesting e' then Some (Returned (e'\<lparr>requested := requested e' @ [new_state]\<rparr>))
         else loop n tr e')"

text \<open>\<open>transition(transitions)\<close>, lines 241 to 252: the table of an external event, a
  \<open>std::map\<close> from the source state to the transition record.\<close>

definition transition_table ::
  "nat \<Rightarrow> (state_id \<rightharpoonup> 'u Transition) \<Rightarrow> 'u StateMachine \<Rightarrow> 'u outcome option" where
  "transition_table n transitions e =
     (case transitions (m_current_state e) of
        Some t \<Rightarrow> transition n (destination t) (Some t) e
      | None \<Rightarrow> transition n (IGNORING_EVENT n) None e)"

subsection \<open>Vocabulary of the statements\<close>

text \<open>The value of \<open>guard_res\<close> in lines 339 to 343 when the guard is evaluated in state \<open>d\<close>
  on the fields \<open>u\<close>: a missing guard allows the transition.\<close>

definition allows :: "'u Transition \<Rightarrow> state_id \<Rightarrow> 'u \<Rightarrow> bool" where
  "allows t d u = (case guard t of None \<Rightarrow> True | Some g \<Rightarrow> fst (g d u))"

text \<open>The entry a slot adds to the log: one call when the pointer is set, none when it is
  null.\<close>

definition logged :: "call \<Rightarrow> 'a option \<Rightarrow> call list" where
  "logged c p = (case p of None \<Rightarrow> [] | Some _ \<Rightarrow> [c])"

text \<open>The destinations a slot requests when it is called on the machine \<open>e\<close>.\<close>

definition asked :: "'u xFuncPtr option \<Rightarrow> 'u StateMachine \<Rightarrow> state_id list" where
  "asked p e = (case p of None \<Rightarrow> [] | Some f \<Rightarrow> snd (f (m_current_state e) (fsm e)))"

definition guard_asked :: "'u bFuncPtr option \<Rightarrow> 'u StateMachine \<Rightarrow> state_id list" where
  "guard_asked p e =
     (case p of None \<Rightarrow> [] | Some g \<Rightarrow> snd (snd (g (m_current_state e) (fsm e))))"

text \<open>
  What calling a sequence of slots does, told without the engine: each slot whose pointer
  is set is called in the state \<open>s\<close> on the fields the slot before it left, and the result is
  the fields after the last one together with the destinations all of them requested, in
  order. \<open>body\<close> is a guard taken as a callback, without its result.
\<close>

definition body :: "'u bFuncPtr \<Rightarrow> 'u xFuncPtr" where
  "body g s u = snd (g s u)"

fun run_all :: "'u xFuncPtr option list \<Rightarrow> state_id \<Rightarrow> 'u \<Rightarrow> 'u \<times> state_id list" where
  "run_all [] s u = (u, [])"
| "run_all (None # ps) s u = run_all ps s u"
| "run_all (Some f # ps) s u =
     (case f s u of (u1, r1) \<Rightarrow> (case run_all ps s u1 of (u2, r2) \<Rightarrow> (u2, r1 @ r2)))"

text \<open>
  The machine at the stages of one evaluation, in closed form: \<open>moved\<close> after line 338,
  \<open>guarded\<close> after the guard, \<open>acted\<close> after the transition action, \<open>settled\<close> at the loop
  condition. \<open>pending_from p e0 e\<close> says that \<open>m_nesting_state\<close> of \<open>e\<close> is the last
  destination requested since \<open>e0\<close>, and \<open>p\<close> when there was none.
\<close>

definition moved :: "nat \<Rightarrow> 'u StateMachine \<Rightarrow> 'u StateMachine" where
  "moved n e = e\<lparr>m_current_state := m_nesting_state e, m_next_state := m_nesting_state e,
                   m_nesting_state := CANNOT_HAPPEN n, m_nesting := True\<rparr>"

definition guarded :: "'u Transition \<Rightarrow> 'u StateMachine \<Rightarrow> 'u StateMachine" where
  "guarded t e = (case guard t of None \<Rightarrow> e | Some g \<Rightarrow> snd (invoke_guard g e))"

definition acted :: "'u Transition \<Rightarrow> 'u StateMachine \<Rightarrow> 'u StateMachine" where
  "acted t e = invoke_opt CallAction (action t) (guarded t e)"

definition settled :: "nat \<Rightarrow> 'u Transition \<Rightarrow> 'u StateMachine \<Rightarrow> 'u StateMachine" where
  "settled n t e =
     (let a = m_current_state e; b = m_nesting_state e; e6 = acted t (moved n e)
      in (if a \<noteq> b
          then invoke_opt (CallEntering b) (entering (m_states e b))
                 (invoke_opt (CallLeaving a) (leaving (m_states e a)) e6)
          else e6)\<lparr>m_nesting := False\<rparr>)"

definition pending_from :: "state_id \<Rightarrow> 'u StateMachine \<Rightarrow> 'u StateMachine \<Rightarrow> bool" where
  "pending_from p e0 e \<longleftrightarrow>
     (\<exists>rs. requested e = requested e0 @ rs
         \<and> m_nesting_state e = (if rs = [] then p else last rs))"

subsection \<open>Small machines for the examples\<close>

text \<open>
  Machines without fields of their own. \<open>no_handlers\<close> is a \<open>State\<close> as its default member
  initialisers leave it. \<open>start n sts\<close> is a machine of \<open>n\<close> real states as the constructor
  leaves it for the initial state 0, with the table \<open>sts\<close> filled in by the derived class
  (\<open>m_next_state\<close>, which the constructor does not initialise, is 0) and empty logs.
\<close>

definition no_handlers :: "unit State" where
  "no_handlers = \<lparr>entering = None, leaving = None, onevent = None\<rparr>"

definition start :: "nat \<Rightarrow> (state_id \<Rightarrow> unit State) \<Rightarrow> unit StateMachine" where
  "start n sts = \<lparr>m_states = sts, m_current_state = 0, m_initial_state = 0, m_next_state = 0,
                  m_nesting_state = CANNOT_HAPPEN n, m_nesting = False, fsm = (),
                  calls = [], requested = []\<rparr>"

text \<open>A callback with an empty body, a callback that calls \<open>transition(d)\<close>, and the two
  constant guards.\<close>

definition quiet :: "unit xFuncPtr" where
  "quiet s u = (u, [])"

definition goes :: "state_id \<Rightarrow> unit xFuncPtr" where
  "goes d s u = (u, [d])"

definition yes :: "unit bFuncPtr" where
  "yes s u = (True, u, [])"

definition no :: "unit bFuncPtr" where
  "no s u = (False, u, [])"

definition plain_to :: "state_id \<Rightarrow> unit Transition" where
  "plain_to d = \<lparr>destination = d, guard = None, action = None\<rparr>"

definition checked_to :: "state_id \<Rightarrow> unit Transition" where
  "checked_to d = \<lparr>destination = d, guard = Some yes, action = Some quiet\<rparr>"

definition refused_to :: "state_id \<Rightarrow> unit Transition" where
  "refused_to d = \<lparr>destination = d, guard = Some no, action = Some quiet\<rparr>"

text \<open>
  Tables of states: \<open>bare\<close> has no handler at all; \<open>calm\<close> has handlers that request
  nothing; in \<open>chain\<close> the entering handler of state 1 requests state 2; in \<open>forked\<close> the
  leaving handler of state 0 requests state 2 and the entering handler of state 1 requests
  state 3; in \<open>reacting\<close> state 0 has an on-event handler; in \<open>trapped\<close> the entering handler
  of state 1 requests \<open>CANNOT_HAPPEN\<close>.
\<close>

definition bare :: "state_id \<Rightarrow> unit State" where
  "bare s = no_handlers"

definition calm :: "state_id \<Rightarrow> unit State" where
  "calm = bare(0 := no_handlers\<lparr>leaving := Some quiet\<rparr>,
               1 := no_handlers\<lparr>entering := Some quiet\<rparr>)"

definition chain :: "state_id \<Rightarrow> unit State" where
  "chain = bare(0 := no_handlers\<lparr>leaving := Some quiet\<rparr>,
                1 := no_handlers\<lparr>entering := Some (goes 2), leaving := Some quiet\<rparr>,
                2 := no_handlers\<lparr>entering := Some quiet\<rparr>)"

definition forked :: "state_id \<Rightarrow> unit State" where
  "forked = bare(0 := no_handlers\<lparr>leaving := Some (goes 2)\<rparr>,
                 1 := no_handlers\<lparr>entering := Some (goes 3)\<rparr>,
                 2 := no_handlers\<lparr>entering := Some quiet\<rparr>,
                 3 := no_handlers\<lparr>entering := Some quiet\<rparr>)"

definition reacting :: "state_id \<Rightarrow> unit State" where
  "reacting = bare(0 := no_handlers\<lparr>onevent := Some quiet, leaving := Some quiet\<rparr>,
                   1 := no_handlers\<lparr>entering := Some quiet\<rparr>)"

definition trapped :: "state_id \<Rightarrow> unit State" where
  "trapped = bare(1 := no_handlers\<lparr>entering := Some (goes (CANNOT_HAPPEN 3))\<rparr>)"

text \<open>
  A machine whose fields are a list of numbers: every callback appends its own number, so
  the fields tell which callbacks ran and in which order. \<open>noting\<close> has a leaving handler
  on state 0 and an entering handler on state 1; \<open>noting_reacting\<close> has in addition an
  on-event handler on state 0 that also calls \<open>transition(2)\<close>. The record \<open>noted_to d\<close>
  has a guard that allows and an action.
\<close>

definition jot :: "nat \<Rightarrow> nat list xFuncPtr" where
  "jot k s u = (u @ [k], [])"

definition jot_goes :: "nat \<Rightarrow> state_id \<Rightarrow> nat list xFuncPtr" where
  "jot_goes k d s u = (u @ [k], [d])"

definition jot_yes :: "nat \<Rightarrow> nat list bFuncPtr" where
  "jot_yes k s u = (True, u @ [k], [])"

definition noted_to :: "state_id \<Rightarrow> nat list Transition" where
  "noted_to d = \<lparr>destination = d, guard = Some (jot_yes 1), action = Some (jot 2)\<rparr>"

definition noting :: "state_id \<Rightarrow> nat list State" where
  "noting = (\<lambda>s. \<lparr>entering = None, leaving = None, onevent = None\<rparr>)
     (0 := \<lparr>entering = None, leaving = Some (jot 3), onevent = None\<rparr>,
      1 := \<lparr>entering = Some (jot 4), leaving = None, onevent = None\<rparr>)"

definition noting_reacting :: "state_id \<Rightarrow> nat list State" where
  "noting_reacting = (\<lambda>s. \<lparr>entering = None, leaving = None, onevent = None\<rparr>)
     (0 := \<lparr>entering = None, leaving = Some (jot 3), onevent = Some (jot_goes 5 2)\<rparr>,
      1 := \<lparr>entering = Some (jot 4), leaving = None, onevent = None\<rparr>)"

definition noted_start :: "nat \<Rightarrow> (state_id \<Rightarrow> nat list State) \<Rightarrow> nat list StateMachine" where
  "noted_start n sts = \<lparr>m_states = sts, m_current_state = 0, m_initial_state = 0,
                        m_next_state = 0, m_nesting_state = CANNOT_HAPPEN n, m_nesting = False,
                        fsm = [], calls = [], requested = []\<rparr>"

text \<open>The machine \<open>start 3 reacting\<close> after the call \<open>transition(1, tr)\<close> has returned from the
  on-event handler of state 0.\<close>

definition stuck :: "unit StateMachine" where
  "stuck = \<lparr>m_states = reacting, m_current_state = 1, m_initial_state = 0, m_next_state = 1,
            m_nesting_state = CANNOT_HAPPEN 3, m_nesting = True, fsm = (),
            calls = [CallOnEvent 0], requested = []\<rparr>"

text \<open>The machines the runs of the examples pass through.\<close>

definition chain_first :: "unit StateMachine" where
  "chain_first = \<lparr>m_states = chain, m_current_state = 1, m_initial_state = 0, m_next_state = 1,
                  m_nesting_state = 2, m_nesting = False, fsm = (),
                  calls = [CallLeaving 0, CallEntering 1], requested = [2]\<rparr>"

definition chain_second :: "unit StateMachine" where
  "chain_second = \<lparr>m_states = chain, m_current_state = 2, m_initial_state = 0, m_next_state = 2,
                   m_nesting_state = CANNOT_HAPPEN 3, m_nesting = False, fsm = (),
                   calls = [CallLeaving 0, CallEntering 1, CallLeaving 1, CallEntering 2],
                   requested = [2]\<rparr>"

definition checked_first :: "unit StateMachine" where
  "checked_first = \<lparr>m_states = chain, m_current_state = 1, m_initial_state = 0,
                    m_next_state = 1, m_nesting_state = 2, m_nesting = False, fsm = (),
                    calls = [CallGuard, CallAction, CallLeaving 0, CallEntering 1],
                    requested = [2]\<rparr>"

definition checked_second :: "unit StateMachine" where
  "checked_second = \<lparr>m_states = chain, m_current_state = 2, m_initial_state = 0,
                     m_next_state = 2, m_nesting_state = CANNOT_HAPPEN 3, m_nesting = False,
                     fsm = (),
                     calls = [CallGuard, CallAction, CallLeaving 0, CallEntering 1,
                              CallGuard, CallAction, CallLeaving 1, CallEntering 2],
                     requested = [2]\<rparr>"

definition forked_first :: "unit StateMachine" where
  "forked_first = \<lparr>m_states = forked, m_current_state = 1, m_initial_state = 0,
                   m_next_state = 1, m_nesting_state = 3, m_nesting = False, fsm = (),
                   calls = [CallLeaving 0, CallEntering 1], requested = [2, 3]\<rparr>"

definition forked_second :: "unit StateMachine" where
  "forked_second = \<lparr>m_states = forked, m_current_state = 3, m_initial_state = 0,
                    m_next_state = 3, m_nesting_state = CANNOT_HAPPEN 4, m_nesting = False,
                    fsm = (),
                    calls = [CallLeaving 0, CallEntering 1, CallEntering 3],
                    requested = [2, 3]\<rparr>"

definition calm_settled :: "unit StateMachine" where
  "calm_settled = \<lparr>m_states = calm, m_current_state = 1, m_initial_state = 0,
                   m_next_state = 1, m_nesting_state = CANNOT_HAPPEN 3, m_nesting = False,
                   fsm = (),
                   calls = [CallGuard, CallAction, CallLeaving 0, CallEntering 1],
                   requested = []\<rparr>"

definition trapped_settled :: "unit StateMachine" where
  "trapped_settled = \<lparr>m_states = trapped, m_current_state = 1, m_initial_state = 0,
                      m_next_state = 1, m_nesting_state = CANNOT_HAPPEN 3, m_nesting = False,
                      fsm = (), calls = [CallEntering 1], requested = [CANNOT_HAPPEN 3]\<rparr>"

section \<open>Properties of the engine\<close>

subsection \<open>What a callback changes\<close>

lemma fold_request_requested [simp]:
  "requested (fold request ds e) = requested e @ ds"
  by (induction ds arbitrary: e) (simp_all add: request_def)

lemma fold_request_pending [simp]:
  "m_nesting_state (fold request ds e) = (if ds = [] then m_nesting_state e else last ds)"
  by (induction ds arbitrary: e) (simp_all add: request_def)

lemma fold_request_frame:
  "fold request ds e = e\<lparr>m_nesting_state := m_nesting_state (fold request ds e),
                         requested := requested (fold request ds e)\<rparr>"
  by (induction ds arbitrary: e) (simp_all add: request_def)

lemma fold_request_fields [simp]:
  "m_states (fold request ds e) = m_states e"
  "m_current_state (fold request ds e) = m_current_state e"
  "m_initial_state (fold request ds e) = m_initial_state e"
  "m_next_state (fold request ds e) = m_next_state e"
  "m_nesting (fold request ds e) = m_nesting e"
  "fsm (fold request ds e) = fsm e"
  "calls (fold request ds e) = calls e"
  by (subst fold_request_frame, simp)+

lemma invoke_fields [simp]:
  "m_states (invoke c f e) = m_states e"
  "m_current_state (invoke c f e) = m_current_state e"
  "m_initial_state (invoke c f e) = m_initial_state e"
  "m_next_state (invoke c f e) = m_next_state e"
  "m_nesting (invoke c f e) = m_nesting e"
  "fsm (invoke c f e) = fst (f (m_current_state e) (fsm e))"
  "calls (invoke c f e) = calls e @ [c]"
  "requested (invoke c f e) = requested e @ snd (f (m_current_state e) (fsm e))"
  by (simp_all add: invoke_def split: prod.splits)

lemma invoke_pending [simp]:
  "m_nesting_state (invoke c f e) =
     (if snd (f (m_current_state e) (fsm e)) = [] then m_nesting_state e
      else last (snd (f (m_current_state e) (fsm e))))"
  by (simp add: invoke_def split: prod.splits)

lemma invoke_opt_fields [simp]:
  "m_states (invoke_opt c p e) = m_states e"
  "m_current_state (invoke_opt c p e) = m_current_state e"
  "m_initial_state (invoke_opt c p e) = m_initial_state e"
  "m_next_state (invoke_opt c p e) = m_next_state e"
  "m_nesting (invoke_opt c p e) = m_nesting e"
  "calls (invoke_opt c p e) = calls e @ logged c p"
  "requested (invoke_opt c p e) = requested e @ asked p e"
  by (simp_all add: invoke_opt_def logged_def asked_def split: option.splits)

lemma invoke_opt_pending [simp]:
  "m_nesting_state (invoke_opt c p e) =
     (if asked p e = [] then m_nesting_state e else last (asked p e))"
  by (simp add: invoke_opt_def asked_def split: option.splits)

lemma invoke_guard_fst [simp]:
  "fst (invoke_guard g e) = fst (g (m_current_state e) (fsm e))"
  by (simp add: invoke_guard_def split: prod.splits)

lemma invoke_guard_fields [simp]:
  "m_states (snd (invoke_guard g e)) = m_states e"
  "m_current_state (snd (invoke_guard g e)) = m_current_state e"
  "m_initial_state (snd (invoke_guard g e)) = m_initial_state e"
  "m_next_state (snd (invoke_guard g e)) = m_next_state e"
  "m_nesting (snd (invoke_guard g e)) = m_nesting e"
  "calls (snd (invoke_guard g e)) = calls e @ [CallGuard]"
  "requested (snd (invoke_guard g e)) = requested e @ snd (snd (g (m_current_state e) (fsm e)))"
  by (simp_all add: invoke_guard_def split: prod.splits)

lemma invoke_guard_pending [simp]:
  "m_nesting_state (snd (invoke_guard g e)) =
     (if snd (snd (g (m_current_state e) (fsm e))) = [] then m_nesting_state e
      else last (snd (snd (g (m_current_state e) (fsm e)))))"
  by (simp add: invoke_guard_def split: prod.splits)

subsection \<open>Unfolding the loop and the call\<close>

lemma loop_Stop: "iteration n tr e = Stop r \<Longrightarrow> loop n tr e = Some r"
  by (subst loop.simps) simp

lemma loop_Pass_done:
  "iteration n tr e = Pass e' \<Longrightarrow> m_nesting_state e' = CANNOT_HAPPEN n \<Longrightarrow>
   loop n tr e = Some (Returned e')"
  by (subst loop.simps) simp

lemma loop_Pass_again:
  "iteration n tr e = Pass e' \<Longrightarrow> m_nesting_state e' \<noteq> CANNOT_HAPPEN n \<Longrightarrow>
   loop n tr e = loop n tr e'"
  by (subst loop.simps) simp

lemma transition_external:
  "\<not> m_nesting e \<Longrightarrow> transition n d tr e = loop n tr (e\<lparr>m_nesting_state := d\<rparr>)"
  by (simp add: transition_def)

lemma transition_nested:
  "m_nesting e \<Longrightarrow> transition n d tr e = Some (Returned (request d e))"
  by (simp add: transition_def request_def)

lemma sentinels [simp]:
  "d < IGNORING_EVENT n \<Longrightarrow> d \<noteq> CANNOT_HAPPEN n"
  "d < IGNORING_EVENT n \<Longrightarrow> d \<noteq> IGNORING_EVENT n"
  "d < IGNORING_EVENT n \<Longrightarrow> \<not> MAX_STATES n \<le> d"
  "IGNORING_EVENT n \<noteq> CANNOT_HAPPEN n"
  by (simp_all add: IGNORING_EVENT_def CANNOT_HAPPEN_def MAX_STATES_def)

lemma real_state_iff:
  "d < IGNORING_EVENT n \<longleftrightarrow> d \<noteq> CANNOT_HAPPEN n \<and> d \<noteq> IGNORING_EVENT n \<and> \<not> MAX_STATES n \<le> d"
  by (auto simp add: IGNORING_EVENT_def CANNOT_HAPPEN_def MAX_STATES_def)


subsection \<open>One evaluation in closed form\<close>

lemma moved_fields [simp]:
  "m_states (moved n e) = m_states e"
  "m_current_state (moved n e) = m_nesting_state e"
  "m_next_state (moved n e) = m_nesting_state e"
  "m_nesting_state (moved n e) = CANNOT_HAPPEN n"
  "m_nesting (moved n e) = True"
  "fsm (moved n e) = fsm e"
  "calls (moved n e) = calls e"
  "requested (moved n e) = requested e"
  by (simp_all add: moved_def)

lemma guarded_fields [simp]:
  "m_states (guarded t e) = m_states e"
  "m_current_state (guarded t e) = m_current_state e"
  "m_next_state (guarded t e) = m_next_state e"
  "m_nesting (guarded t e) = m_nesting e"
  "calls (guarded t e) = calls e @ logged CallGuard (guard t)"
  "requested (guarded t e) = requested e @ guard_asked (guard t) e"
  "m_nesting_state (guarded t e) =
     (if guard_asked (guard t) e = [] then m_nesting_state e
      else last (guard_asked (guard t) e))"
  by (simp_all add: guarded_def logged_def guard_asked_def split: option.splits)

lemma guard_stage:
  "(case guard t of None \<Rightarrow> (True, e) | Some g \<Rightarrow> invoke_guard g e)
     = (allows t (m_current_state e) (fsm e), guarded t e)"
  by (simp add: allows_def guarded_def prod_eq_iff split: option.splits)

lemma acted_fields [simp]:
  "m_states (acted t e) = m_states e"
  "m_current_state (acted t e) = m_current_state e"
  "m_next_state (acted t e) = m_next_state e"
  "m_nesting (acted t e) = m_nesting e"
  "calls (acted t e) = calls e @ logged CallGuard (guard t) @ logged CallAction (action t)"
  by (simp_all add: acted_def)

lemma iteration_forbidden:
  "m_nesting_state e = CANNOT_HAPPEN n \<Longrightarrow>
   iteration n tr e = Stop (Exited (e\<lparr>m_next_state := CANNOT_HAPPEN n\<rparr>))"
  by (simp add: iteration_def)

lemma iteration_ignored:
  "m_nesting_state e = IGNORING_EVENT n \<Longrightarrow>
   iteration n tr e = Stop (Returned (e\<lparr>m_next_state := IGNORING_EVENT n,
                                          m_nesting_state := CANNOT_HAPPEN n\<rparr>))"
  by (simp add: iteration_def)

lemma iteration_unknown:
  "MAX_STATES n \<le> m_nesting_state e \<Longrightarrow>
   iteration n tr e = Stop (Exited (e\<lparr>m_next_state := m_nesting_state e,
                                        m_nesting_state := CANNOT_HAPPEN n\<rparr>))"
  by (simp add: iteration_def IGNORING_EVENT_def CANNOT_HAPPEN_def MAX_STATES_def)

lemma iteration_range:
  "m_nesting_state e < IGNORING_EVENT n \<Longrightarrow> MAX_STATES n \<le> m_current_state e \<Longrightarrow>
   iteration n tr e = Stop (Fault ((moved n e)\<lparr>m_nesting := m_nesting e\<rparr>))"
  by (simp add: iteration_def moved_def)

lemma iteration_null:
  "m_nesting_state e < IGNORING_EVENT n \<Longrightarrow> m_current_state e < MAX_STATES n \<Longrightarrow>
   iteration n None e = Stop (Fault (moved n e))"
  by (simp add: iteration_def moved_def)

lemma iteration_reacts:
  assumes "m_nesting_state e < IGNORING_EVENT n" and "m_current_state e < MAX_STATES n"
  shows "iteration n (Some t) e =
     (if \<not> allows t (m_nesting_state e) (fsm e)
      then Stop (Returned ((guarded t (moved n e))\<lparr>m_current_state := m_current_state e,
                                                     m_nesting := False\<rparr>))
      else case onevent (m_states e (m_current_state e)) of
             Some h \<Rightarrow> Stop (Returned (invoke (CallOnEvent (m_current_state e)) h
                                          (acted t (moved n e))))
           | None \<Rightarrow> Pass (settled n t e))"
proof -
  have m: "e\<lparr>m_next_state := m_nesting_state e, m_nesting_state := CANNOT_HAPPEN n,
             m_current_state := m_nesting_state e, m_nesting := True\<rparr> = moved n e"
    by (simp add: moved_def)
  show ?thesis
    using assms
    by (simp add: iteration_def Let_def m guard_stage settled_def acted_def
             split: option.splits)
qed


lemma pending_from_invoke_opt:
  assumes "pending_from p e0 e"
  shows "pending_from p e0 (invoke_opt c h e)"
proof -
  from assms obtain rs where rs: "requested e = requested e0 @ rs"
    "m_nesting_state e = (if rs = [] then p else last rs)"
    unfolding pending_from_def by blast
  have "requested (invoke_opt c h e) = requested e0 @ (rs @ asked h e)"
    using rs by simp
  moreover have "m_nesting_state (invoke_opt c h e)
      = (if rs @ asked h e = [] then p else last (rs @ asked h e))"
    using rs by simp
  ultimately show ?thesis unfolding pending_from_def by blast
qed

lemma pending_from_guarded:
  assumes "pending_from p e0 e"
  shows "pending_from p e0 (guarded t e)"
proof -
  from assms obtain rs where rs: "requested e = requested e0 @ rs"
    "m_nesting_state e = (if rs = [] then p else last rs)"
    unfolding pending_from_def by blast
  have "requested (guarded t e) = requested e0 @ (rs @ guard_asked (guard t) e)"
    using rs by simp
  moreover have "m_nesting_state (guarded t e)
      = (if rs @ guard_asked (guard t) e = [] then p else last (rs @ guard_asked (guard t) e))"
    using rs by simp
  ultimately show ?thesis unfolding pending_from_def by blast
qed

lemma pending_from_moved: "pending_from (CANNOT_HAPPEN n) e (moved n e)"
  unfolding pending_from_def by (rule exI[of _ "[]"]) simp

lemma pending_from_nesting:
  "pending_from p e0 e \<Longrightarrow> pending_from p e0 (e\<lparr>m_nesting := b\<rparr>)"
  unfolding pending_from_def by simp

lemma pending_from_settled: "pending_from (CANNOT_HAPPEN n) e (settled n t e)"
  unfolding settled_def Let_def acted_def
  by (simp add: pending_from_nesting pending_from_invoke_opt pending_from_guarded
        pending_from_moved)

lemma settled_fields [simp]:
  "m_states (settled n t e) = m_states e"
  "m_current_state (settled n t e) = m_nesting_state e"
  "m_next_state (settled n t e) = m_nesting_state e"
  "m_nesting (settled n t e) = False"
  by (simp_all add: settled_def Let_def)

lemma settled_calls:
  "calls (settled n t e) =
     calls e @ logged CallGuard (guard t) @ logged CallAction (action t)
       @ (if m_current_state e \<noteq> m_nesting_state e
          then logged (CallLeaving (m_current_state e)) (leaving (m_states e (m_current_state e)))
             @ logged (CallEntering (m_nesting_state e)) (entering (m_states e (m_nesting_state e)))
          else [])"
  by (simp add: settled_def Let_def)

lemma iteration_PassD:
  assumes "iteration n tr e = Pass e'"
  shows "\<exists>t. tr = Some t \<and> e' = settled n t e
           \<and> m_nesting_state e < IGNORING_EVENT n \<and> m_current_state e < MAX_STATES n
           \<and> allows t (m_nesting_state e) (fsm e)
           \<and> onevent (m_states e (m_current_state e)) = None"
proof -
  have real: "m_nesting_state e < IGNORING_EVENT n"
  proof (rule ccontr)
    assume "\<not> m_nesting_state e < IGNORING_EVENT n"
    then consider "m_nesting_state e = CANNOT_HAPPEN n" | "m_nesting_state e = IGNORING_EVENT n"
      | "MAX_STATES n \<le> m_nesting_state e"
      unfolding real_state_iff by blast
    then show False
      using assms by cases (simp_all add: iteration_forbidden iteration_ignored iteration_unknown)
  qed
  have cur: "m_current_state e < MAX_STATES n"
  proof (rule ccontr)
    assume "\<not> m_current_state e < MAX_STATES n"
    with real assms show False by (simp add: iteration_range)
  qed
  from real cur assms obtain t where t: "tr = Some t"
    by (cases tr) (simp_all add: iteration_null)
  from assms real cur t show ?thesis
    by (simp add: iteration_reacts split: if_splits option.splits)
qed

subsection \<open>The callbacks of an evaluation really run\<close>

lemma run_all_snoc:
  "run_all (ps @ [p]) s u =
     (case run_all ps s u of
        (u1, r1) \<Rightarrow> (case p of None \<Rightarrow> (u1, r1)
                     | Some f \<Rightarrow> (fst (f s u1), r1 @ snd (f s u1))))"
proof (induction ps arbitrary: u)
  case Nil
  show ?case by (cases p) (simp_all add: split_beta)
next
  case (Cons q ps)
  show ?case by (cases q) (simp_all add: Cons split_beta split: option.splits)
qed

lemma invoke_opt_ran:
  assumes "m_current_state e = s"
    and "fsm e = fst (run_all ps s u0)"
    and "requested e = rq @ snd (run_all ps s u0)"
  shows "fsm (invoke_opt c p e) = fst (run_all (ps @ [p]) s u0)"
    and "requested (invoke_opt c p e) = rq @ snd (run_all (ps @ [p]) s u0)"
  using assms
  by (simp_all add: run_all_snoc split_beta invoke_opt_def invoke_def asked_def
        split: option.splits)

lemma guarded_ran:
  "fsm (guarded t e) = fst (run_all [map_option body (guard t)] (m_current_state e) (fsm e))"
  "requested (guarded t e)
     = requested e @ snd (run_all [map_option body (guard t)] (m_current_state e) (fsm e))"
  by (simp_all add: guarded_def invoke_guard_def body_def guard_asked_def split_beta
        split: option.splits)

lemma acted_ran:
  "fsm (acted t e)
     = fst (run_all [map_option body (guard t), action t] (m_current_state e) (fsm e))"
  "requested (acted t e)
     = requested e
       @ snd (run_all [map_option body (guard t), action t] (m_current_state e) (fsm e))"
proof -
  have a: "m_current_state (guarded t e) = m_current_state e" by simp
  note r = invoke_opt_ran[OF a guarded_ran(1) guarded_ran(2), of CallAction "action t"]
  show "fsm (acted t e)
     = fst (run_all [map_option body (guard t), action t] (m_current_state e) (fsm e))"
    unfolding acted_def using r(1) by simp
  show "requested (acted t e)
     = requested e
       @ snd (run_all [map_option body (guard t), action t] (m_current_state e) (fsm e))"
    unfolding acted_def using r(2) by simp
qed

lemma settled_ran:
  assumes "m_current_state e \<noteq> m_nesting_state e"
  shows "fsm (settled n t e)
     = fst (run_all [map_option body (guard t), action t,
                     leaving (m_states e (m_current_state e)),
                     entering (m_states e (m_nesting_state e))] (m_nesting_state e) (fsm e))"
    and "requested (settled n t e)
     = requested e
       @ snd (run_all [map_option body (guard t), action t,
                       leaving (m_states e (m_current_state e)),
                       entering (m_states e (m_nesting_state e))] (m_nesting_state e) (fsm e))"
proof -
  let ?a = "m_current_state e" and ?b = "m_nesting_state e"
  let ?e6 = "acted t (moved n e)"
  let ?e8 = "invoke_opt (CallLeaving ?a) (leaving (m_states e ?a)) ?e6"
  let ?e9 = "invoke_opt (CallEntering ?b) (entering (m_states e ?b)) ?e8"
  have c6: "m_current_state ?e6 = ?b" by simp
  have f6: "fsm ?e6 = fst (run_all [map_option body (guard t), action t] ?b (fsm e))"
    using acted_ran(1)[of t "moved n e"] by simp
  have q6: "requested ?e6
      = requested e @ snd (run_all [map_option body (guard t), action t] ?b (fsm e))"
    using acted_ran(2)[of t "moved n e"] by simp
  note r8 = invoke_opt_ran[OF c6 f6 q6, of "CallLeaving ?a" "leaving (m_states e ?a)"]
  have c8: "m_current_state ?e8 = ?b" by simp
  note r9 = invoke_opt_ran[OF c8 r8(1) r8(2), of "CallEntering ?b" "entering (m_states e ?b)"]
  have s: "settled n t e = ?e9\<lparr>m_nesting := False\<rparr>"
    using assms by (simp add: settled_def Let_def)
  show "fsm (settled n t e)
     = fst (run_all [map_option body (guard t), action t,
                     leaving (m_states e (m_current_state e)),
                     entering (m_states e (m_nesting_state e))] (m_nesting_state e) (fsm e))"
    unfolding s using r9(1) by simp
  show "requested (settled n t e)
     = requested e
       @ snd (run_all [map_option body (guard t), action t,
                       leaving (m_states e (m_current_state e)),
                       entering (m_states e (m_nesting_state e))] (m_nesting_state e) (fsm e))"
    unfolding s using r9(2) by simp
qed

lemma onevent_ran:
  "fsm (invoke c h (acted t e))
     = fst (run_all [map_option body (guard t), action t, Some h] (m_current_state e) (fsm e))"
  "requested (invoke c h (acted t e))
     = requested e
       @ snd (run_all [map_option body (guard t), action t, Some h] (m_current_state e) (fsm e))"
proof -
  have a: "m_current_state (acted t e) = m_current_state e" by simp
  note r = invoke_opt_ran[OF a acted_ran(1) acted_ran(2), of c "Some h"]
  have i: "invoke c h (acted t e) = invoke_opt c (Some h) (acted t e)"
    by (simp add: invoke_opt_def)
  show "fsm (invoke c h (acted t e))
     = fst (run_all [map_option body (guard t), action t, Some h] (m_current_state e) (fsm e))"
    unfolding i using r(1) by simp
  show "requested (invoke c h (acted t e))
     = requested e
       @ snd (run_all [map_option body (guard t), action t, Some h] (m_current_state e) (fsm e))"
    unfolding i using r(2) by simp
qed

subsection \<open>Exits and pending requests\<close>

lemma iteration_Stop_Exited:
  assumes "iteration n tr e = Stop (Exited e')" and "m_nesting_state e \<noteq> CANNOT_HAPPEN n"
  shows "m_next_state e' \<noteq> CANNOT_HAPPEN n"
proof (cases "m_nesting_state e < IGNORING_EVENT n")
  case True
  show ?thesis
  proof (cases "m_current_state e < MAX_STATES n")
    case cur: True
    show ?thesis
    proof (cases tr)
      case None
      with assms True cur show ?thesis by (simp add: iteration_null)
    next
      case (Some t)
      with assms True cur show ?thesis
        by (simp add: iteration_reacts split: if_splits option.splits)
    qed
  next
    case False
    with assms True show ?thesis by (simp add: iteration_range)
  qed
next
  case False
  then consider "m_nesting_state e = CANNOT_HAPPEN n" | "m_nesting_state e = IGNORING_EVENT n"
    | "MAX_STATES n \<le> m_nesting_state e"
    unfolding real_state_iff by blast
  then show ?thesis
  proof cases
    case 1
    with assms(2) show ?thesis by simp
  next
    case 2
    with assms(1) show ?thesis by (simp add: iteration_ignored)
  next
    case 3
    with assms show ?thesis by (auto simp add: iteration_unknown)
  qed
qed

lemma loop_exit_cause:
  assumes "loop n tr e = Some y"
  shows "\<forall>e'. y = Exited e' \<longrightarrow> m_nesting_state e \<noteq> CANNOT_HAPPEN n
           \<longrightarrow> m_next_state e' \<noteq> CANNOT_HAPPEN n"
proof (rule loop.raw_induct[where P = "\<lambda>n tr e y. \<forall>e'. y = Exited e'
           \<longrightarrow> m_nesting_state e \<noteq> CANNOT_HAPPEN n
           \<longrightarrow> m_next_state e' \<noteq> CANNOT_HAPPEN n", OF _ assms])
  fix lp :: "nat \<Rightarrow> 'a Transition option \<Rightarrow> 'a StateMachine \<Rightarrow> 'a outcome option"
  fix n tr e y
  assume IH: "\<And>n tr e y. lp n tr e = Some y \<Longrightarrow>
           \<forall>e'. y = Exited e' \<longrightarrow> m_nesting_state e \<noteq> CANNOT_HAPPEN n
             \<longrightarrow> m_next_state e' \<noteq> CANNOT_HAPPEN n"
    and step: "(case iteration n tr e of Stop r \<Rightarrow> Some r
                | Pass e' \<Rightarrow> if m_nesting_state e' \<noteq> CANNOT_HAPPEN n then lp n tr e'
                             else Some (Returned e')) = Some y"
  show "\<forall>e'. y = Exited e' \<longrightarrow> m_nesting_state e \<noteq> CANNOT_HAPPEN n
           \<longrightarrow> m_next_state e' \<noteq> CANNOT_HAPPEN n"
  proof (cases "iteration n tr e")
    case (Stop r)
    with step have ry: "r = y" by simp
    show ?thesis
    proof (intro allI impI)
      fix e'
      assume y: "y = Exited e'" and p: "m_nesting_state e \<noteq> CANNOT_HAPPEN n"
      from Stop ry y have "iteration n tr e = Stop (Exited e')" by simp
      from iteration_Stop_Exited[OF this p] show "m_next_state e' \<noteq> CANNOT_HAPPEN n" .
    qed
  next
    case (Pass e1)
    show ?thesis
    proof (cases "m_nesting_state e1 = CANNOT_HAPPEN n")
      case True
      with Pass step show ?thesis by auto
    next
      case False
      with Pass step have "lp n tr e1 = Some y" by simp
      from IH[OF this] False show ?thesis by simp
    qed
  qed
qed

lemma pass_pending:
  assumes "iteration n tr e = Pass e1" and "requested e1 = requested e @ rs"
  shows "m_nesting_state e1 = (if rs = [] then CANNOT_HAPPEN n else last rs)"
proof -
  from iteration_PassD[OF assms(1)] obtain t where "e1 = settled n t e" by blast
  with pending_from_settled[of n e t] assms(2) show ?thesis
    unfolding pending_from_def by auto
qed

lemma loop_two_passes:
  assumes "iteration n tr e = Pass e1" and "m_nesting_state e1 \<noteq> CANNOT_HAPPEN n"
    and "iteration n tr e1 = Pass e2" and "m_nesting_state e2 = CANNOT_HAPPEN n"
  shows "loop n tr e = Some (Returned e2)"
  using assms by (simp add: loop_Pass_again loop_Pass_done)

lemma transition_exits:
  assumes "\<not> m_nesting e" and "d = CANNOT_HAPPEN n \<or> MAX_STATES n \<le> d"
  shows "transition n d tr e
           = Some (Exited (e\<lparr>m_next_state := d, m_nesting_state := CANNOT_HAPPEN n\<rparr>))"
proof -
  from assms(2) have "iteration n tr (e\<lparr>m_nesting_state := d\<rparr>)
      = Stop (Exited (e\<lparr>m_next_state := d, m_nesting_state := CANNOT_HAPPEN n\<rparr>))"
  proof
    assume "d = CANNOT_HAPPEN n"
    then show ?thesis by (simp add: iteration_forbidden)
  next
    assume "MAX_STATES n \<le> d"
    then show ?thesis by (simp add: iteration_unknown)
  qed
  with assms(1) show ?thesis by (simp add: transition_external loop_Stop)
qed

subsection \<open>Runs of the example machines\<close>

lemmas example_defs = start_def no_handlers_def quiet_def goes_def yes_def no_def plain_to_def
  checked_to_def refused_to_def bare_def calm_def chain_def forked_def reacting_def trapped_def
  IGNORING_EVENT_def CANNOT_HAPPEN_def MAX_STATES_def

lemmas eval_defs = settled_def acted_def guarded_def moved_def invoke_opt_def invoke_def
  invoke_guard_def request_def allows_def logged_def Let_def

lemma chain_first_pass:
  "iteration 3 (Some (plain_to 1)) ((start 3 chain)\<lparr>m_nesting_state := 1\<rparr>) = Pass chain_first"
  by (simp add: iteration_reacts example_defs eval_defs chain_first_def)

lemma chain_second_pass:
  "iteration 3 (Some (plain_to 1)) chain_first = Pass chain_second"
  by (simp add: iteration_reacts example_defs eval_defs chain_first_def chain_second_def)

lemma checked_run:
  "transition 3 1 (Some (checked_to 1)) (start 3 chain) = Some (Returned checked_second)"
proof -
  have 1: "iteration 3 (Some (checked_to 1)) ((start 3 chain)\<lparr>m_nesting_state := 1\<rparr>)
            = Pass checked_first"
    by (simp add: iteration_reacts example_defs eval_defs checked_first_def)
  have 2: "iteration 3 (Some (checked_to 1)) checked_first = Pass checked_second"
    by (simp add: iteration_reacts example_defs eval_defs checked_first_def checked_second_def)
  have "loop 3 (Some (checked_to 1)) ((start 3 chain)\<lparr>m_nesting_state := 1\<rparr>)
          = Some (Returned checked_second)"
    by (rule loop_two_passes[OF 1 _ 2])
       (simp_all add: checked_first_def checked_second_def CANNOT_HAPPEN_def)
  then show ?thesis by (simp add: transition_external start_def)
qed

lemma forked_run:
  "transition 4 1 (Some (plain_to 1)) (start 4 forked) = Some (Returned forked_second)"
proof -
  have 1: "iteration 4 (Some (plain_to 1)) ((start 4 forked)\<lparr>m_nesting_state := 1\<rparr>)
            = Pass forked_first"
    by (simp add: iteration_reacts example_defs eval_defs forked_first_def)
  have 2: "iteration 4 (Some (plain_to 1)) forked_first = Pass forked_second"
    by (simp add: iteration_reacts example_defs eval_defs forked_first_def forked_second_def)
  have "loop 4 (Some (plain_to 1)) ((start 4 forked)\<lparr>m_nesting_state := 1\<rparr>)
          = Some (Returned forked_second)"
    by (rule loop_two_passes[OF 1 _ 2])
       (simp_all add: forked_first_def forked_second_def CANNOT_HAPPEN_def)
  then show ?thesis by (simp add: transition_external start_def)
qed

lemma stuck_reached:
  "transition 3 1 (Some (plain_to 1)) (start 3 reacting) = Some (Returned stuck)"
proof -
  have "iteration 3 (Some (plain_to 1)) ((start 3 reacting)\<lparr>m_nesting_state := 1\<rparr>)
      = Stop (Returned stuck)"
    by (simp add: iteration_reacts example_defs eval_defs stuck_def)
  then show ?thesis by (simp add: transition_external loop_Stop start_def)
qed

lemma calm_pass:
  "iteration 3 (Some (checked_to 1)) ((start 3 calm)\<lparr>m_nesting_state := 1\<rparr>) = Pass calm_settled"
  by (simp add: iteration_reacts example_defs eval_defs calm_settled_def)

lemma trapped_pass:
  "iteration 3 (Some (plain_to 1)) ((start 3 trapped)\<lparr>m_nesting_state := 1\<rparr>)
     = Pass trapped_settled"
  by (simp add: iteration_reacts example_defs eval_defs trapped_settled_def)

section \<open>The claims\<close>

subsection \<open>C1: chained requests\<close>

text \<open>
  C1, as amended. A call \<open>transition(B, tr)\<close> is made outside an evaluation. If the
  evaluation of the move to \<open>B\<close> runs to the loop condition (the guard allowed it and the
  state left has no on-event handler), the last destination a callback requested during
  it is \<open>C\<close>, the evaluation of this deferred request runs to the loop condition too, and
  no callback requests a transition during it, then the call returns. The first
  evaluation has settled when the second begins: the current state is \<open>B\<close> and \<open>m_nesting\<close>
  is cleared in the machine \<open>e1\<close> from which the second evaluation starts, and the callbacks
  of the second are logged after those of the first. Afterwards the current state is \<open>C\<close>
  and both transient members are neutral. The deferred request is taken up by the next
  round of the loop of the same call.
\<close>

theorem chained_request_drained:
  assumes "\<not> m_nesting e"
    and "iteration n tr (e\<lparr>m_nesting_state := B\<rparr>) = Pass e1"
    and "requested e1 = requested e @ rs @ [C]"
    and "iteration n tr e1 = Pass e2"
    and "requested e2 = requested e1"
  shows "transition n B tr e = Some (Returned e2)
       \<and> m_current_state e1 = B \<and> \<not> m_nesting e1
       \<and> m_current_state e2 = C \<and> \<not> m_nesting e2 \<and> m_nesting_state e2 = CANNOT_HAPPEN n
       \<and> (\<exists>cs1 cs2. calls e1 = calls e @ cs1 \<and> calls e2 = calls e1 @ cs2)"
proof -
  from iteration_PassD[OF assms(2)] obtain t where
    t: "tr = Some t" and e1: "e1 = settled n t (e\<lparr>m_nesting_state := B\<rparr>)" by blast
  from iteration_PassD[OF assms(4)] t have
    e2: "e2 = settled n t e1" and real: "m_nesting_state e1 < IGNORING_EVENT n" by auto
  from pass_pending[OF assms(2), of "rs @ [C]"] assms(3)
  have p1: "m_nesting_state e1 = C" by simp
  from pass_pending[OF assms(4), of "[]"] assms(5)
  have p2: "m_nesting_state e2 = CANNOT_HAPPEN n" by simp
  from real p1 have "m_nesting_state e1 \<noteq> CANNOT_HAPPEN n" by simp
  with assms(1,2,4) p2 have "transition n B tr e = Some (Returned e2)"
    by (simp add: transition_external loop_two_passes)
  moreover have "\<exists>cs1 cs2. calls e1 = calls e @ cs1 \<and> calls e2 = calls e1 @ cs2"
    unfolding e2 unfolding e1 by (simp add: settled_calls)
  moreover have "m_current_state e1 = B" "\<not> m_nesting e1" by (simp_all add: e1)
  moreover have "m_current_state e2 = C" "\<not> m_nesting e2" using p1 by (simp_all add: e2)
  ultimately show ?thesis using p2 by simp
qed

text \<open>The chain 0 to 1 to 2: the entering handler of state 1 requests state 2.\<close>

theorem chained_request_drained_witness:
  "\<not> m_nesting (start 3 chain)
   \<and> iteration 3 (Some (plain_to 1)) ((start 3 chain)\<lparr>m_nesting_state := 1\<rparr>) = Pass chain_first
   \<and> requested chain_first = requested (start 3 chain) @ [] @ [2]
   \<and> iteration 3 (Some (plain_to 1)) chain_first = Pass chain_second
   \<and> requested chain_second = requested chain_first
   \<and> transition 3 1 (Some (plain_to 1)) (start 3 chain) = Some (Returned chain_second)
   \<and> m_current_state chain_first = 1 \<and> \<not> m_nesting chain_first
   \<and> m_current_state chain_second = 2 \<and> \<not> m_nesting chain_second
   \<and> m_nesting_state chain_second = CANNOT_HAPPEN 3"
proof -
  have h1: "\<not> m_nesting (start 3 chain)" by (simp add: start_def)
  have h3: "requested chain_first = requested (start 3 chain) @ [] @ [2]"
    by (simp add: chain_first_def start_def)
  have h5: "requested chain_second = requested chain_first"
    by (simp add: chain_first_def chain_second_def)
  from chained_request_drained[OF h1 chain_first_pass h3 chain_second_pass h5]
  show ?thesis using h1 h3 h5 chain_first_pass chain_second_pass by blast
qed

text \<open>
  C1 as stated fails: there is one pending slot, so a request is lost when a later
  callback of the same evaluation makes another one. From state 0 the event resolves to
  state 1; the leaving handler of state 0 requests state 2 and the entering handler of
  state 1 requests state 3. The call returns in state 3, and state 2, which was
  requested, is never entered.
\<close>

theorem earlier_request_dropped:
  "map_option m_current_state (returned (transition 4 1 (Some (plain_to 1)) (start 4 forked)))
     = Some 3
   \<and> map_option requested (returned (transition 4 1 (Some (plain_to 1)) (start 4 forked)))
     = Some [2, 3]
   \<and> map_option calls (returned (transition 4 1 (Some (plain_to 1)) (start 4 forked)))
     = Some [CallLeaving 0, CallEntering 1, CallEntering 3]"
  unfolding forked_run by (simp add: returned_def forked_second_def)

subsection \<open>C2: the record of a deferred request\<close>

text \<open>
  C2 does not hold of the code: the loop keeps the parameter \<open>tr\<close> of the outer call for
  every round, so the request deferred by a callback is evaluated with the record of the
  external transition. From state 0 the event resolves to state 1 with a guard and an
  action; the entering handler of state 1 requests state 2. The guard and the action of
  the record are called a second time, for the move from 1 to 2.
\<close>

theorem deferred_request_reuses_record:
  "map_option calls (returned (transition 3 1 (Some (checked_to 1)) (start 3 chain)))
     = Some [CallGuard, CallAction, CallLeaving 0, CallEntering 1,
             CallGuard, CallAction, CallLeaving 1, CallEntering 2]
   \<and> map_option requested (returned (transition 3 1 (Some (checked_to 1)) (start 3 chain)))
     = Some [2]
   \<and> map_option m_current_state
        (returned (transition 3 1 (Some (checked_to 1)) (start 3 chain))) = Some 2"
  unfolding checked_run by (simp add: returned_def checked_second_def)

subsection \<open>C3: the transient members on return\<close>

text \<open>
  C3 does not hold of the code: the return of line 374, after the on-event handler, does
  not clear \<open>m_nesting\<close>, as the return of line 351 after a refusing guard does. State 0
  has an on-event handler; the call \<open>transition(1, tr)\<close> with a record without guard
  returns with \<open>m_nesting\<close> still set.
\<close>

theorem onevent_return_keeps_nesting:
  "map_option m_nesting (returned (transition 3 1 (Some (plain_to 1)) (start 3 reacting)))
     = Some True
   \<and> map_option calls (returned (transition 3 1 (Some (plain_to 1)) (start 3 reacting)))
     = Some [CallOnEvent 0]"
proof -
  have "iteration 3 (Some (plain_to 1)) ((start 3 reacting)\<lparr>m_nesting_state := 1\<rparr>)
      = Stop (Returned (invoke (CallOnEvent 0) quiet
           (acted (plain_to 1) (moved 3 ((start 3 reacting)\<lparr>m_nesting_state := 1\<rparr>)))))"
    by (simp add: iteration_reacts example_defs allows_def)
  then have "transition 3 1 (Some (plain_to 1)) (start 3 reacting)
      = Some (Returned (invoke (CallOnEvent 0) quiet
           (acted (plain_to 1) (moved 3 ((start 3 reacting)\<lparr>m_nesting_state := 1\<rparr>)))))"
    by (simp add: transition_external loop_Stop start_def)
  then show ?thesis
    by (simp add: returned_def logged_def plain_to_def start_def)
qed

subsection \<open>C4: a refusing guard\<close>

text \<open>
  C4. An evaluation whose guard returns false (the guard is called with the current state
  already set to the destination \<open>d\<close>) ends the call by a return; the current state of the
  machine returned is the one before the evaluation, and the guard is the only callback
  of the evaluation. The evaluation is the one of a call made outside an evaluation, or a
  later round of the loop, which starts from a machine whose pending state is \<open>d\<close>.
\<close>

theorem guard_refusal_rolls_back:
  assumes "m_current_state e < MAX_STATES n" and "d < IGNORING_EVENT n"
    and "guard t = Some g" and "\<not> fst (g d (fsm e))"
  shows "\<exists>e'. iteration n (Some t) (e\<lparr>m_nesting_state := d\<rparr>) = Stop (Returned e')
          \<and> (\<not> m_nesting e \<longrightarrow> transition n d (Some t) e = Some (Returned e'))
          \<and> m_current_state e' = m_current_state e
          \<and> calls e' = calls e @ [CallGuard]"
proof -
  let ?e = "e\<lparr>m_nesting_state := d\<rparr>"
  let ?r = "(guarded t (moved n ?e))\<lparr>m_current_state := m_current_state e, m_nesting := False\<rparr>"
  from assms have it: "iteration n (Some t) ?e = Stop (Returned ?r)"
    by (simp add: iteration_reacts allows_def)
  then have "\<not> m_nesting e \<longrightarrow> transition n d (Some t) e = Some (Returned ?r)"
    by (simp add: transition_external loop_Stop)
  moreover have "m_current_state ?r = m_current_state e" by simp
  moreover have "calls ?r = calls e @ [CallGuard]" using assms(3) by (simp add: logged_def)
  ultimately show ?thesis using it by blast
qed

theorem guard_refusal_rolls_back_witness:
  "m_current_state (start 3 calm) < MAX_STATES 3 \<and> (1::nat) < IGNORING_EVENT 3
   \<and> guard (refused_to 1) = Some no \<and> \<not> fst (no 1 (fsm (start 3 calm)))
   \<and> \<not> m_nesting (start 3 calm)
   \<and> map_option m_current_state
        (returned (transition 3 1 (Some (refused_to 1)) (start 3 calm))) = Some 0
   \<and> map_option calls
        (returned (transition 3 1 (Some (refused_to 1)) (start 3 calm))) = Some [CallGuard]"
proof -
  have h1: "m_current_state (start 3 calm) < MAX_STATES 3"
    by (simp add: start_def MAX_STATES_def)
  have h2: "(1::nat) < IGNORING_EVENT 3" by (simp add: IGNORING_EVENT_def)
  have h3: "guard (refused_to 1) = Some no" by (simp add: refused_to_def)
  have h4: "\<not> fst (no 1 (fsm (start 3 calm)))" by (simp add: no_def)
  have h5: "\<not> m_nesting (start 3 calm)" by (simp add: start_def)
  from guard_refusal_rolls_back[OF h1 h2 h3 h4] h5 obtain e' where
    "transition 3 1 (Some (refused_to 1)) (start 3 calm) = Some (Returned e')"
    "m_current_state e' = m_current_state (start 3 calm)"
    "calls e' = calls (start 3 calm) @ [CallGuard]" by blast
  then have "map_option m_current_state
        (returned (transition 3 1 (Some (refused_to 1)) (start 3 calm))) = Some 0"
    "map_option calls
        (returned (transition 3 1 (Some (refused_to 1)) (start 3 calm))) = Some [CallGuard]"
    by (simp_all add: returned_def start_def)
  with h1 h2 h3 h4 h5 show ?thesis by blast
qed

subsection \<open>C5: the order of the callbacks of a state change\<close>

text \<open>
  C5. In the evaluation of a move from \<open>A\<close> to a different real state \<open>B\<close>, with a
  transition record whose guard, if there is one, allows the move, and no on-event handler
  on \<open>A\<close>, the callbacks run in this order, each once and only if its pointer is set: the
  guard, the transition action, the leaving handler of \<open>A\<close>, the entering handler of \<open>B\<close>.
  They are logged in this order, and they are really called: the fields of the concrete
  machine afterwards are what these four leave when each is called, in the state \<open>B\<close>, on
  the fields the one before it left, and the destinations requested during the evaluation
  are theirs, in the same order; the pending state is the last of them, if any. The
  evaluation reaches the loop condition with the current state \<open>B\<close>; when no request is
  pending there, a call made outside an evaluation returns with that machine.
\<close>

theorem state_change_call_order:
  assumes "m_current_state e = A" and "A < MAX_STATES n" and "B < IGNORING_EVENT n"
    and "A \<noteq> B" and "onevent (m_states e A) = None" and "allows t B (fsm e)"
  shows "\<exists>e'. iteration n (Some t) (e\<lparr>m_nesting_state := B\<rparr>) = Pass e'
          \<and> m_current_state e' = B
          \<and> calls e' = calls e @ logged CallGuard (guard t) @ logged CallAction (action t)
                         @ logged (CallLeaving A) (leaving (m_states e A))
                         @ logged (CallEntering B) (entering (m_states e B))
          \<and> fsm e' = fst (run_all [map_option body (guard t), action t,
                                    leaving (m_states e A), entering (m_states e B)] B (fsm e))
          \<and> requested e' = requested e
                @ snd (run_all [map_option body (guard t), action t,
                                leaving (m_states e A), entering (m_states e B)] B (fsm e))
          \<and> m_nesting_state e' =
                (if snd (run_all [map_option body (guard t), action t,
                                  leaving (m_states e A), entering (m_states e B)] B (fsm e)) = []
                 then CANNOT_HAPPEN n
                 else last (snd (run_all [map_option body (guard t), action t,
                                  leaving (m_states e A), entering (m_states e B)] B (fsm e))))
          \<and> (\<not> m_nesting e \<and> m_nesting_state e' = CANNOT_HAPPEN n
                \<longrightarrow> transition n B (Some t) e = Some (Returned e'))"
proof -
  let ?e = "e\<lparr>m_nesting_state := B\<rparr>"
  let ?r = "settled n t ?e"
  let ?ran = "run_all [map_option body (guard t), action t,
                       leaving (m_states e A), entering (m_states e B)] B (fsm e)"
  from assms have it: "iteration n (Some t) ?e = Pass ?r"
    by (simp add: iteration_reacts)
  then have "\<not> m_nesting e \<and> m_nesting_state ?r = CANNOT_HAPPEN n
                \<longrightarrow> transition n B (Some t) e = Some (Returned ?r)"
    by (simp add: transition_external loop_Pass_done)
  moreover have "m_current_state ?r = B" by simp
  moreover have "calls ?r = calls e @ logged CallGuard (guard t) @ logged CallAction (action t)
                         @ logged (CallLeaving A) (leaving (m_states e A))
                         @ logged (CallEntering B) (entering (m_states e B))"
    using assms(1,4) by (simp add: settled_calls)
  moreover have f: "fsm ?r = fst ?ran" and q: "requested ?r = requested e @ snd ?ran"
    using settled_ran[of ?e n t] assms(1,4) by simp_all
  moreover have "m_nesting_state ?r = (if snd ?ran = [] then CANNOT_HAPPEN n else last (snd ?ran))"
    using pass_pending[OF it, of "snd ?ran"] q by simp
  ultimately show ?thesis using it by blast
qed

text \<open>Every callback appends its number to the fields: guard 1, action 2, leaving
  handler of state 0 3, entering handler of state 1 4.\<close>

theorem state_change_call_order_witness:
  "m_current_state (noted_start 3 noting) = 0 \<and> (0::nat) < MAX_STATES 3
   \<and> (1::nat) < IGNORING_EVENT 3 \<and> (0::nat) \<noteq> 1
   \<and> onevent (m_states (noted_start 3 noting) 0) = None
   \<and> allows (noted_to 1) 1 (fsm (noted_start 3 noting))
   \<and> \<not> m_nesting (noted_start 3 noting)
   \<and> map_option m_current_state
        (returned (transition 3 1 (Some (noted_to 1)) (noted_start 3 noting))) = Some 1
   \<and> map_option calls
        (returned (transition 3 1 (Some (noted_to 1)) (noted_start 3 noting)))
       = Some [CallGuard, CallAction, CallLeaving 0, CallEntering 1]
   \<and> map_option fsm
        (returned (transition 3 1 (Some (noted_to 1)) (noted_start 3 noting)))
       = Some [1, 2, 3, 4]
   \<and> map_option requested
        (returned (transition 3 1 (Some (noted_to 1)) (noted_start 3 noting))) = Some []"
proof -
  let ?e = "noted_start 3 noting"
  let ?ran = "run_all [map_option body (guard (noted_to 1)), action (noted_to 1),
                       leaving (m_states ?e 0), entering (m_states ?e 1)] 1 (fsm ?e)"
  have h1: "m_current_state ?e = 0" by (simp add: noted_start_def)
  have h2: "(0::nat) < MAX_STATES 3" by (simp add: MAX_STATES_def)
  have h3: "(1::nat) < IGNORING_EVENT 3" by (simp add: IGNORING_EVENT_def)
  have h4: "(0::nat) \<noteq> 1" by simp
  have h5: "onevent (m_states ?e 0) = None" by (simp add: noted_start_def noting_def)
  have h6: "allows (noted_to 1) 1 (fsm ?e)"
    by (simp add: allows_def noted_to_def jot_yes_def)
  have h7: "\<not> m_nesting ?e" by (simp add: noted_start_def)
  have ran: "?ran = ([1, 2, 3, 4], [])"
    by (simp add: noted_start_def noting_def noted_to_def jot_def jot_yes_def body_def)
  from state_change_call_order[OF h1 h2 h3 h4 h5 h6] obtain e' where
    st: "m_current_state e' = 1"
    and cs: "calls e' = calls ?e @ logged CallGuard (guard (noted_to 1))
               @ logged CallAction (action (noted_to 1))
               @ logged (CallLeaving 0) (leaving (m_states ?e 0))
               @ logged (CallEntering 1) (entering (m_states ?e 1))"
    and fs: "fsm e' = fst ?ran"
    and rq: "requested e' = requested ?e @ snd ?ran"
    and pd: "m_nesting_state e' = (if snd ?ran = [] then CANNOT_HAPPEN 3 else last (snd ?ran))"
    and ret: "\<not> m_nesting ?e \<and> m_nesting_state e' = CANNOT_HAPPEN 3
               \<longrightarrow> transition 3 1 (Some (noted_to 1)) ?e = Some (Returned e')"
    by blast
  from pd have "m_nesting_state e' = CANNOT_HAPPEN 3" unfolding ran by simp
  with ret h7 have r: "transition 3 1 (Some (noted_to 1)) ?e = Some (Returned e')" by simp
  have c: "calls e' = [CallGuard, CallAction, CallLeaving 0, CallEntering 1]"
    unfolding cs by (simp add: logged_def noted_start_def noting_def noted_to_def)
  have f: "fsm e' = [1, 2, 3, 4]" unfolding fs ran by simp
  have q: "requested e' = []" unfolding rq ran by (simp add: noted_start_def)
  from r st c f q have "map_option m_current_state
        (returned (transition 3 1 (Some (noted_to 1)) ?e)) = Some 1"
    "map_option calls (returned (transition 3 1 (Some (noted_to 1)) ?e))
       = Some [CallGuard, CallAction, CallLeaving 0, CallEntering 1]"
    "map_option fsm (returned (transition 3 1 (Some (noted_to 1)) ?e)) = Some [1, 2, 3, 4]"
    "map_option requested (returned (transition 3 1 (Some (noted_to 1)) ?e)) = Some []"
    by (simp_all add: returned_def)
  with h1 h2 h3 h4 h5 h6 h7 show ?thesis by blast
qed

subsection \<open>C6: the on-event reaction\<close>

text \<open>
  C6. In an evaluation that leaves a state \<open>A\<close> with an on-event handler, with a transition
  record whose guard, if there is one, allows the move, the callbacks are the guard and
  the transition action (each if its pointer is set) and then the on-event handler of \<open>A\<close>,
  in this order, and the call returns: no leaving and no entering handler is called,
  whether the destination \<open>d\<close> is \<open>A\<close> or not. The three are logged in this order and they
  are really called, and nothing else is: the fields of the concrete machine afterwards
  are what guard, action and on-event handler leave when each is called, in the state
  \<open>d\<close>, on the fields the one before it left, and the destinations requested during the
  evaluation are theirs, in the same order.
\<close>

theorem onevent_short_circuit:
  assumes "m_current_state e = A" and "A < MAX_STATES n" and "d < IGNORING_EVENT n"
    and "onevent (m_states e A) = Some h" and "allows t d (fsm e)"
  shows "\<exists>e'. iteration n (Some t) (e\<lparr>m_nesting_state := d\<rparr>) = Stop (Returned e')
          \<and> (\<not> m_nesting e \<longrightarrow> transition n d (Some t) e = Some (Returned e'))
          \<and> calls e' = calls e @ logged CallGuard (guard t) @ logged CallAction (action t)
                         @ [CallOnEvent A]
          \<and> fsm e' = fst (run_all [map_option body (guard t), action t, Some h] d (fsm e))
          \<and> requested e' = requested e
                @ snd (run_all [map_option body (guard t), action t, Some h] d (fsm e))"
proof -
  let ?e = "e\<lparr>m_nesting_state := d\<rparr>"
  let ?r = "invoke (CallOnEvent A) h (acted t (moved n ?e))"
  from assms have it: "iteration n (Some t) ?e = Stop (Returned ?r)"
    by (simp add: iteration_reacts)
  then have "\<not> m_nesting e \<longrightarrow> transition n d (Some t) e = Some (Returned ?r)"
    by (simp add: transition_external loop_Stop)
  moreover have "calls ?r = calls e @ logged CallGuard (guard t) @ logged CallAction (action t)
                         @ [CallOnEvent A]" by simp
  moreover have "fsm ?r = fst (run_all [map_option body (guard t), action t, Some h] d (fsm e))"
    "requested ?r = requested e
       @ snd (run_all [map_option body (guard t), action t, Some h] d (fsm e))"
    using onevent_ran[of "CallOnEvent A" h t "moved n ?e"] by simp_all
  ultimately show ?thesis using it by blast
qed

text \<open>Every callback appends its number to the fields: guard 1, action 2, on-event
  handler of state 0 5 (it also requests state 2), leaving handler of state 0 3, entering
  handler of state 1 4.\<close>

theorem onevent_short_circuit_witness:
  "m_current_state (noted_start 3 noting_reacting) = 0 \<and> (0::nat) < MAX_STATES 3
   \<and> (1::nat) < IGNORING_EVENT 3
   \<and> onevent (m_states (noted_start 3 noting_reacting) 0) = Some (jot_goes 5 2)
   \<and> allows (noted_to 1) 1 (fsm (noted_start 3 noting_reacting))
   \<and> \<not> m_nesting (noted_start 3 noting_reacting)
   \<and> map_option calls
        (returned (transition 3 1 (Some (noted_to 1)) (noted_start 3 noting_reacting)))
       = Some [CallGuard, CallAction, CallOnEvent 0]
   \<and> map_option fsm
        (returned (transition 3 1 (Some (noted_to 1)) (noted_start 3 noting_reacting)))
       = Some [1, 2, 5]
   \<and> map_option requested
        (returned (transition 3 1 (Some (noted_to 1)) (noted_start 3 noting_reacting)))
       = Some [2]"
proof -
  let ?e = "noted_start 3 noting_reacting"
  let ?ran = "run_all [map_option body (guard (noted_to 1)), action (noted_to 1),
                       Some (jot_goes 5 2)] 1 (fsm ?e)"
  have h1: "m_current_state ?e = 0" by (simp add: noted_start_def)
  have h2: "(0::nat) < MAX_STATES 3" by (simp add: MAX_STATES_def)
  have h3: "(1::nat) < IGNORING_EVENT 3" by (simp add: IGNORING_EVENT_def)
  have h4: "onevent (m_states ?e 0) = Some (jot_goes 5 2)"
    by (simp add: noted_start_def noting_reacting_def)
  have h5: "allows (noted_to 1) 1 (fsm ?e)"
    by (simp add: allows_def noted_to_def jot_yes_def)
  have h6: "\<not> m_nesting ?e" by (simp add: noted_start_def)
  have ran: "?ran = ([1, 2, 5], [2])"
    by (simp add: noted_start_def noted_to_def jot_def jot_goes_def jot_yes_def body_def)
  from onevent_short_circuit[OF h1 h2 h3 h4 h5] h6 obtain e' where
    r: "transition 3 1 (Some (noted_to 1)) ?e = Some (Returned e')"
    and cs: "calls e' = calls ?e @ logged CallGuard (guard (noted_to 1))
               @ logged CallAction (action (noted_to 1)) @ [CallOnEvent 0]"
    and fs: "fsm e' = fst ?ran"
    and rq: "requested e' = requested ?e @ snd ?ran"
    by blast
  have c: "calls e' = [CallGuard, CallAction, CallOnEvent 0]"
    unfolding cs by (simp add: logged_def noted_start_def noted_to_def)
  have f: "fsm e' = [1, 2, 5]" unfolding fs ran by simp
  have q: "requested e' = [2]" unfolding rq ran by (simp add: noted_start_def)
  from r c f q have "map_option calls (returned (transition 3 1 (Some (noted_to 1)) ?e))
       = Some [CallGuard, CallAction, CallOnEvent 0]"
    "map_option fsm (returned (transition 3 1 (Some (noted_to 1)) ?e)) = Some [1, 2, 5]"
    "map_option requested (returned (transition 3 1 (Some (noted_to 1)) ?e)) = Some [2]"
    by (simp_all add: returned_def)
  with h1 h2 h3 h4 h5 h6 show ?thesis by blast
qed

subsection \<open>C7: an ignored event\<close>

text \<open>
  C7. A call of \<open>transition\<close> for \<open>IGNORING_EVENT\<close>, with any record or none, made outside
  or inside an evaluation, returns with the current state, the log of callbacks and the
  fields of the concrete machine unchanged. So does the dispatch of an event through its
  table when the table has no entry for the current state (the call is then made for
  \<open>IGNORING_EVENT\<close> without a record) or an entry whose destination is \<open>IGNORING_EVENT\<close>.
\<close>

theorem ignored_event_is_noop:
  assumes "case transitions (m_current_state e) of None \<Rightarrow> True
           | Some t \<Rightarrow> destination t = IGNORING_EVENT n"
  shows "(\<exists>e'. transition n (IGNORING_EVENT n) tr e = Some (Returned e')
            \<and> m_current_state e' = m_current_state e \<and> calls e' = calls e \<and> fsm e' = fsm e)
       \<and> (\<exists>e'. transition_table n transitions e = Some (Returned e')
            \<and> m_current_state e' = m_current_state e \<and> calls e' = calls e \<and> fsm e' = fsm e)"
proof -
  have ign: "\<exists>e'. transition n (IGNORING_EVENT n) r e = Some (Returned e')
            \<and> m_current_state e' = m_current_state e \<and> calls e' = calls e \<and> fsm e' = fsm e"
    for r
  proof (cases "m_nesting e")
    case True
    then have "transition n (IGNORING_EVENT n) r e
                 = Some (Returned (request (IGNORING_EVENT n) e))"
      by (rule transition_nested)
    moreover have "m_current_state (request (IGNORING_EVENT n) e) = m_current_state e"
      "calls (request (IGNORING_EVENT n) e) = calls e"
      "fsm (request (IGNORING_EVENT n) e) = fsm e"
      by (simp_all add: request_def)
    ultimately show ?thesis by blast
  next
    case False
    let ?r = "e\<lparr>m_nesting_state := IGNORING_EVENT n\<rparr>\<lparr>m_next_state := IGNORING_EVENT n,
                  m_nesting_state := CANNOT_HAPPEN n\<rparr>"
    from False have "transition n (IGNORING_EVENT n) r e = Some (Returned ?r)"
      by (simp add: transition_external loop_Stop iteration_ignored)
    moreover have "m_current_state ?r = m_current_state e" "calls ?r = calls e" "fsm ?r = fsm e"
      by simp_all
    ultimately show ?thesis by blast
  qed
  have "\<exists>e'. transition_table n transitions e = Some (Returned e')
            \<and> m_current_state e' = m_current_state e \<and> calls e' = calls e \<and> fsm e' = fsm e"
  proof (cases "transitions (m_current_state e)")
    case None
    with ign[of None] show ?thesis by (simp add: transition_table_def)
  next
    case (Some t)
    with assms ign[of "Some t"] show ?thesis by (simp add: transition_table_def)
  qed
  with ign[of tr] show ?thesis by blast
qed

text \<open>In state 0: an event whose table has an entry for state 1 only, and an event whose
  table resolves state 0 to \<open>IGNORING_EVENT\<close>.\<close>

theorem ignored_event_is_noop_witness:
  "(case [1 \<mapsto> plain_to 2] (m_current_state (start 3 calm)) of None \<Rightarrow> True
    | Some t \<Rightarrow> destination t = IGNORING_EVENT 3)
   \<and> map_option m_current_state
        (returned (transition_table 3 [1 \<mapsto> plain_to 2] (start 3 calm))) = Some 0
   \<and> map_option calls
        (returned (transition_table 3 [1 \<mapsto> plain_to 2] (start 3 calm))) = Some []
   \<and> (case [0 \<mapsto> checked_to (IGNORING_EVENT 3)] (m_current_state (start 3 calm)) of
         None \<Rightarrow> True | Some t \<Rightarrow> destination t = IGNORING_EVENT 3)
   \<and> map_option m_current_state
        (returned (transition_table 3 [0 \<mapsto> checked_to (IGNORING_EVENT 3)] (start 3 calm)))
       = Some 0
   \<and> map_option calls
        (returned (transition_table 3 [0 \<mapsto> checked_to (IGNORING_EVENT 3)] (start 3 calm)))
       = Some []
   \<and> map_option m_current_state
        (returned (transition 3 (IGNORING_EVENT 3) (Some (checked_to 1)) (start 3 calm)))
       = Some 0
   \<and> map_option calls
        (returned (transition 3 (IGNORING_EVENT 3) (Some (checked_to 1)) (start 3 calm)))
       = Some []"
proof -
  have h: "case [1 \<mapsto> plain_to 2] (m_current_state (start 3 calm)) of None \<Rightarrow> True
           | Some t \<Rightarrow> destination t = IGNORING_EVENT 3"
    by (simp add: start_def)
  have k: "case [0 \<mapsto> checked_to (IGNORING_EVENT 3)] (m_current_state (start 3 calm)) of
             None \<Rightarrow> True | Some t \<Rightarrow> destination t = IGNORING_EVENT 3"
    by (simp add: start_def checked_to_def)
  from ignored_event_is_noop[where transitions = "[1 \<mapsto> plain_to 2]" and e = "start 3 calm"
      and n = 3 and tr = "Some (checked_to 1)", OF h] obtain e1 e2 where
    "transition 3 (IGNORING_EVENT 3) (Some (checked_to 1)) (start 3 calm) = Some (Returned e1)"
    "m_current_state e1 = m_current_state (start 3 calm)" "calls e1 = calls (start 3 calm)"
    "transition_table 3 [1 \<mapsto> plain_to 2] (start 3 calm) = Some (Returned e2)"
    "m_current_state e2 = m_current_state (start 3 calm)" "calls e2 = calls (start 3 calm)"
    by blast
  moreover
  from ignored_event_is_noop[where transitions = "[0 \<mapsto> checked_to (IGNORING_EVENT 3)]"
      and e = "start 3 calm" and n = 3 and tr = "Some (checked_to 1)", OF k] obtain e3 where
    "transition_table 3 [0 \<mapsto> checked_to (IGNORING_EVENT 3)] (start 3 calm)
       = Some (Returned e3)"
    "m_current_state e3 = m_current_state (start 3 calm)" "calls e3 = calls (start 3 calm)"
    by blast
  ultimately have "map_option m_current_state
        (returned (transition_table 3 [1 \<mapsto> plain_to 2] (start 3 calm))) = Some 0"
    "map_option calls
        (returned (transition_table 3 [1 \<mapsto> plain_to 2] (start 3 calm))) = Some []"
    "map_option m_current_state
        (returned (transition_table 3 [0 \<mapsto> checked_to (IGNORING_EVENT 3)] (start 3 calm)))
       = Some 0"
    "map_option calls
        (returned (transition_table 3 [0 \<mapsto> checked_to (IGNORING_EVENT 3)] (start 3 calm)))
       = Some []"
    "map_option m_current_state
        (returned (transition 3 (IGNORING_EVENT 3) (Some (checked_to 1)) (start 3 calm)))
       = Some 0"
    "map_option calls
        (returned (transition 3 (IGNORING_EVENT 3) (Some (checked_to 1)) (start 3 calm)))
       = Some []"
    by (simp_all add: returned_def start_def)
  with h k show ?thesis by blast
qed

subsection \<open>C8: forbidden and unknown destinations\<close>

text \<open>
  C8 does not hold of the code. While \<open>m_nesting\<close> is clear, a call for \<open>CANNOT_HAPPEN\<close> or
  for a destination that is not below \<open>MAX_STATES\<close> does end in \<open>exit\<close> before any callback
  (\<open>transition_exits\<close> above). But the return of line 374 leaves \<open>m_nesting\<close> set: on the
  machine \<open>stuck\<close>, which the call \<open>transition(1, tr)\<close> leaves behind after the on-event
  handler of state 0, an event dispatched from outside whose table resolves state 1 to
  \<open>CANNOT_HAPPEN\<close>, or to the unknown state 7, is taken for a nested request: the call
  returns at line 299 and the process goes on, in state 1.
\<close>

theorem forbidden_event_only_recorded:
  "returned (transition 3 1 (Some (plain_to 1)) (start 3 reacting)) = Some stuck
   \<and> exited (transition_table 3 [1 \<mapsto> plain_to (CANNOT_HAPPEN 3)] stuck) = None
   \<and> map_option m_current_state
        (returned (transition_table 3 [1 \<mapsto> plain_to (CANNOT_HAPPEN 3)] stuck)) = Some 1
   \<and> exited (transition_table 3 [1 \<mapsto> plain_to 7] stuck) = None
   \<and> map_option m_current_state
        (returned (transition_table 3 [1 \<mapsto> plain_to 7] stuck)) = Some 1"
proof -
  have n: "m_nesting stuck" and c: "m_current_state stuck = 1" by (simp_all add: stuck_def)
  have "transition_table 3 [1 \<mapsto> plain_to d] stuck
          = Some (Returned (request d stuck))" for d
    using transition_nested[OF n, of 3 d "Some (plain_to d)"]
    by (simp add: transition_table_def c plain_to_def)
  then show ?thesis
    unfolding stuck_reached by (simp add: returned_def exited_def request_def c)
qed

subsection \<open>C9: a call without a transition record\<close>

text \<open>
  C9 does not hold of the code: line 339 reads \<open>tr->guard\<close> without testing \<open>tr\<close>, although
  \<open>tr\<close> defaults to \<open>nullptr\<close> and line 360 does test it. The call \<open>transition(1)\<close> on a
  machine in state 0, outside an evaluation, dereferences the null pointer, after the
  current state has been set to 1 and before any callback.
\<close>

theorem null_record_dereferenced:
  "map_option m_current_state (faulted (transition 3 1 None (start 3 calm))) = Some 1
   \<and> map_option calls (faulted (transition 3 1 None (start 3 calm))) = Some []
   \<and> returned (transition 3 1 None (start 3 calm)) = None"
proof -
  have "iteration 3 None ((start 3 calm)\<lparr>m_nesting_state := 1\<rparr>)
      = Stop (Fault (moved 3 ((start 3 calm)\<lparr>m_nesting_state := 1\<rparr>)))"
    by (simp add: iteration_null example_defs)
  then have "transition 3 1 None (start 3 calm)
      = Some (Fault (moved 3 ((start 3 calm)\<lparr>m_nesting_state := 1\<rparr>)))"
    by (simp add: transition_external loop_Stop start_def)
  then show ?thesis
    by (simp add: faulted_def returned_def start_def)
qed

subsection \<open>C10: a deferred request for the forbidden state\<close>

text \<open>
  C10. For a call made outside an evaluation: with the destination \<open>CANNOT_HAPPEN\<close> the
  call ends in \<open>exit\<close>. When the evaluation of a destination \<open>d\<close> runs to the loop condition
  and the last request of a callback during it was for \<open>CANNOT_HAPPEN\<close>, the call returns
  with the machine of that evaluation, as it does when nothing was requested. And when
  a call for a destination other than \<open>CANNOT_HAPPEN\<close> ends in \<open>exit\<close>, in whatever round of
  the loop, the state under evaluation is not \<open>CANNOT_HAPPEN\<close>: the exit is the one for an
  unknown state, never the one for the forbidden event.
\<close>

theorem deferred_forbidden_is_silent:
  assumes "\<not> m_nesting e"
  shows "(\<exists>e'. transition n (CANNOT_HAPPEN n) tr0 e = Some (Exited e'))
       \<and> (iteration n tr (e\<lparr>m_nesting_state := d\<rparr>) = Pass e1
            \<and> requested e1 = requested e @ rs @ [CANNOT_HAPPEN n]
          \<longrightarrow> transition n d tr e = Some (Returned e1))
       \<and> (d2 \<noteq> CANNOT_HAPPEN n \<and> transition n d2 tr2 e = Some (Exited e2)
          \<longrightarrow> m_next_state e2 \<noteq> CANNOT_HAPPEN n)"
proof (intro conjI impI)
  show "\<exists>e'. transition n (CANNOT_HAPPEN n) tr0 e = Some (Exited e')"
    using assms by (simp add: transition_exits)
next
  assume a: "iteration n tr (e\<lparr>m_nesting_state := d\<rparr>) = Pass e1
            \<and> requested e1 = requested e @ rs @ [CANNOT_HAPPEN n]"
  with pass_pending[of n tr "e\<lparr>m_nesting_state := d\<rparr>" e1 "rs @ [CANNOT_HAPPEN n]"]
  have "m_nesting_state e1 = CANNOT_HAPPEN n" by simp
  with a assms show "transition n d tr e = Some (Returned e1)"
    by (simp add: transition_external loop_Pass_done)
next
  assume "d2 \<noteq> CANNOT_HAPPEN n \<and> transition n d2 tr2 e = Some (Exited e2)"
  with assms show "m_next_state e2 \<noteq> CANNOT_HAPPEN n"
    using loop_exit_cause[of n tr2 "e\<lparr>m_nesting_state := d2\<rparr>" "Exited e2"]
    by (simp add: transition_external)
qed

text \<open>The entering handler of state 1 requests \<open>CANNOT_HAPPEN\<close>; the destination 7 is not
  a state of a machine of 3 real states.\<close>

theorem deferred_forbidden_is_silent_witness:
  "\<not> m_nesting (start 3 trapped)
   \<and> exited (transition 3 (CANNOT_HAPPEN 3) (Some (plain_to 1)) (start 3 trapped)) \<noteq> None
   \<and> iteration 3 (Some (plain_to 1)) ((start 3 trapped)\<lparr>m_nesting_state := 1\<rparr>)
       = Pass trapped_settled
   \<and> requested trapped_settled = requested (start 3 trapped) @ [] @ [CANNOT_HAPPEN 3]
   \<and> transition 3 1 (Some (plain_to 1)) (start 3 trapped) = Some (Returned trapped_settled)
   \<and> m_current_state trapped_settled = 1
   \<and> 7 \<noteq> CANNOT_HAPPEN 3
   \<and> transition 3 7 (Some (plain_to 1)) (start 3 trapped)
       = Some (Exited ((start 3 trapped)\<lparr>m_next_state := 7\<rparr>))
   \<and> m_next_state ((start 3 trapped)\<lparr>m_next_state := 7\<rparr>) \<noteq> CANNOT_HAPPEN 3"
proof -
  let ?e = "start 3 trapped"
  let ?x = "?e\<lparr>m_next_state := 7\<rparr>"
  have h1: "\<not> m_nesting ?e" by (simp add: start_def)
  have h2: "requested trapped_settled = requested ?e @ [] @ [CANNOT_HAPPEN 3]"
    by (simp add: trapped_settled_def start_def)
  have h3: "7 \<noteq> CANNOT_HAPPEN 3" by (simp add: CANNOT_HAPPEN_def)
  have "transition 3 7 (Some (plain_to 1)) ?e
          = Some (Exited (?e\<lparr>m_next_state := 7, m_nesting_state := CANNOT_HAPPEN 3\<rparr>))"
    by (rule transition_exits[OF h1]) (simp add: MAX_STATES_def)
  then have h4: "transition 3 7 (Some (plain_to 1)) ?e = Some (Exited ?x)"
    by (simp add: start_def)
  from deferred_forbidden_is_silent[OF h1, of 3 "Some (plain_to 1)" "Some (plain_to 1)" 1
      trapped_settled "[]" 7 "Some (plain_to 1)" ?x]
  have "(\<exists>e'. transition 3 (CANNOT_HAPPEN 3) (Some (plain_to 1)) ?e = Some (Exited e'))"
    and "transition 3 1 (Some (plain_to 1)) ?e = Some (Returned trapped_settled)"
    and "m_next_state ?x \<noteq> CANNOT_HAPPEN 3"
    using trapped_pass h2 h3 h4 by blast+
  moreover from this(1)
  have "exited (transition 3 (CANNOT_HAPPEN 3) (Some (plain_to 1)) ?e) \<noteq> None"
    by (auto simp add: exited_def)
  moreover have "m_current_state trapped_settled = 1" by (simp add: trapped_settled_def)
  ultimately show ?thesis using h1 h2 h3 h4 trapped_pass by blast
qed

end
